theory Spec2Isabelle
  imports Main
begin

section \<open>The WebSocket gateway of wt-tracker (src/lib/uws-tracker.ts)\<close>

text \<open>
  The class \<^verbatim>\<open>UWebSocketsTracker\<close> bridges the events of a WebSocket transport
  (open, message, drain, close) to a tracker object with the two methods
  \<^verbatim>\<open>processMessage\<close> and \<^verbatim>\<open>disconnectPeer\<close>. The model is a shallow embedding:
  the fields of the class and the \<^verbatim>\<open>peer\<close> property it hangs on every socket are a
  record, each handler is a function from that record to the updated record, the list
  of outward effects of the handler in program order, and the exception that leaves the
  handler, if any.
\<close>

subsection \<open>JavaScript values and objects\<close>

text \<open>
  The settings and the listen token have the TypeScript type \<^verbatim>\<open>any\<close>. Numbers are
  restricted to integers (the source only writes integer literals); \<open>JObj\<close> is a
  reference to some object whose properties are not looked at.
\<close>

datatype jsvalue = JUndefined | JNull | JBool bool | JNum int | JStr string | JObj nat

text \<open>The truthiness test of \<^verbatim>\<open>if (v)\<close>, \<^verbatim>\<open>v ? a : b\<close> and \<^verbatim>\<open>v && w\<close>.\<close>

fun truthy :: "jsvalue \<Rightarrow> bool" where
  "truthy JUndefined = False"
| "truthy JNull = False"
| "truthy (JBool b) = b"
| "truthy (JNum n) = (n \<noteq> 0)"
| "truthy (JStr s) = (s \<noteq> [])"
| "truthy (JObj r) = True"

text \<open>
  Decimal digits of a number, as a template literal prints an integer (below \<open>10^21\<close>;
  larger ones print with an exponent and are outside the model).
\<close>

fun digits :: "nat \<Rightarrow> string" where
  "digits n =
     (if n < 10 then [''0123456789'' ! n]
      else digits (n div 10) @ [''0123456789'' ! (n mod 10)])"

declare digits.simps [simp del]

fun to_string :: "jsvalue \<Rightarrow> string" where
  "to_string JUndefined = ''undefined''"
| "to_string JNull = ''null''"
| "to_string (JBool b) = (if b then ''true'' else ''false'')"
| "to_string (JNum n) = (if n < 0 then ''-'' @ digits (nat (- n)) else digits (nat n))"
| "to_string (JStr s) = s"
| "to_string (JObj r) = ''[object Object]''"

text \<open>
  A plain object is a finite map from property names to values. Reading a missing
  property gives \<^verbatim>\<open>undefined\<close>; the spread \<^verbatim>\<open>{...base, ...extra}\<close> copies the
  properties of \<open>extra\<close> over those of \<open>base\<close>.
\<close>

type_synonym object = "string \<rightharpoonup> jsvalue"

definition get :: "object \<Rightarrow> string \<Rightarrow> jsvalue" where
  "get obj k = (case obj k of None \<Rightarrow> JUndefined | Some v \<Rightarrow> v)"

definition spread :: "object \<Rightarrow> object \<Rightarrow> object" where
  "spread base extra = base ++ extra"

subsection \<open>The constructor's settings (lines 36-53)\<close>

text \<open>
  The argument \<^verbatim>\<open>settings\<close> of the constructor: \<open>None\<close> when the caller passes
  nothing (the parameter default \<^verbatim>\<open>{}\<close>) or a falsy value; otherwise an object whose
  properties \<^verbatim>\<open>server\<close> and \<^verbatim>\<open>websockets\<close> are each either an object (\<open>Some\<close>) or
  missing or falsy (\<open>None\<close>). Other properties of the argument are never read.
\<close>

record config =
  cfg_server :: "object option"
  cfg_websockets :: "object option"

record settings =
  server :: object
  websockets :: object

definition server_defaults :: object where
  "server_defaults = [''port'' \<mapsto> JNum 8000, ''host'' \<mapsto> JStr ''0.0.0.0'']"

definition websockets_defaults :: object where
  "websockets_defaults =
     [''path'' \<mapsto> JStr ''/'',
      ''maxPayloadLength'' \<mapsto> JNum (64 * 1024),
      ''idleTimeout'' \<mapsto> JNum 240,
      ''compression'' \<mapsto> JNum 1,
      ''logLevel'' \<mapsto> JNum 0]"

text \<open>\<^verbatim>\<open>(settings && settings.server) ? settings.server : {}\<close>, and the same for websockets.\<close>

definition section_of :: "config option \<Rightarrow> (config \<Rightarrow> object option) \<Rightarrow> object" where
  "section_of arg sel =
     (case arg of
        None \<Rightarrow> Map.empty
      | Some c \<Rightarrow> (case sel c of None \<Rightarrow> Map.empty | Some obj \<Rightarrow> obj))"

definition make_settings :: "config option \<Rightarrow> settings" where
  "make_settings arg =
     \<lparr> server = spread server_defaults (section_of arg cfg_server),
       websockets = spread websockets_defaults (section_of arg cfg_websockets) \<rparr>"

subsection \<open>The tracker, the sockets and the effects\<close>

type_synonym ws = nat
type_synonym peer_ref = nat
type_synonym bytes = string

text \<open>
  What a \<^verbatim>\<open>throw\<close> carries: the \<^verbatim>\<open>SyntaxError\<close> of \<^verbatim>\<open>JSON.parse\<close>, an instance of
  \<^verbatim>\<open>TrackerError\<close>, or anything else.
\<close>

datatype error = SyntaxError string | TrackerError string | OtherError string

text \<open>
  A \<^verbatim>\<open>PeerContext\<close> object lives in a store under its address, so that "the same
  object" is "the same address". The closure \<^verbatim>\<open>sendMessage\<close> of the object captures
  the socket it was created for (\<open>peer_ws\<close>); \<^verbatim>\<open>id\<close> is the property the tracker
  assigns later.
\<close>

record peer_context =
  peer_ws :: ws
  peer_id :: "string option"

text \<open>The arguments of a console call.\<close>

datatype 'j arg = S string | N int | J 'j | E error | Hex string

text \<open>
  The effects a handler has on the outside, in program order:
  a console call (method, arguments), \<^verbatim>\<open>ws.close()\<close>,
  \<^verbatim>\<open>ws.send(JSON.stringify(json), false, false)\<close>, the creation of a
  \<^verbatim>\<open>PeerContext\<close> for a socket, and the two calls to the tracker.
\<close>

datatype 'j effect =
    Console string "'j arg list"
  | WsClose ws
  | WsSend ws 'j
  | NewPeer ws peer_ref
  | ProcessMessage 'j peer_ref
  | DisconnectPeer peer_ref

text \<open>
  The tracker is defined in another module. While one of its methods runs it may assign
  \<^verbatim>\<open>peer.id\<close> and call \<^verbatim>\<open>peer.sendMessage(json)\<close> on the objects it holds; then it
  returns or throws. A method maps its arguments and the tracker's own state \<open>'t\<close> to
  these calls in order, the exception thrown if any, and the new state.
\<close>

datatype 'j callback = SetId peer_ref string | SendMessage peer_ref 'j

type_synonym ('j, 't) reply = "('j callback list \<times> error option) \<times> 't"

record ('j, 't) tracker =
  processMessage :: "'j \<Rightarrow> peer_ref \<Rightarrow> 't \<Rightarrow> ('j, 't) reply"
  disconnectPeer :: "peer_ref \<Rightarrow> 't \<Rightarrow> ('j, 't) reply"

text \<open>
  The gateway: the fields of the class (\<open>tracker\<close>, \<open>settings\<close>, \<open>logLevel\<close>,
  \<open>webSocketsCount\<close>, and \<open>ssl\<close> for which of \<^verbatim>\<open>App\<close> and \<^verbatim>\<open>SSLApp\<close> built
  \<^verbatim>\<open>app_\<close>), the property \<^verbatim>\<open>(ws as any).peer\<close> of every socket (\<open>ws_peer\<close>), the
  store of \<^verbatim>\<open>PeerContext\<close> objects with its next free address, and the state of the
  tracker. \<open>webSocketsCount\<close> is a JavaScript number, exact on integers below \<open>2^53\<close>;
  the model takes it as an unbounded integer.
\<close>

record ('j, 't) gateway =
  tracker :: "('j, 't) tracker"
  settings :: settings
  logLevel :: jsvalue
  webSocketsCount :: int
  ssl :: bool
  ws_peer :: "ws \<rightharpoonup> peer_ref"
  peers :: "peer_ref \<rightharpoonup> peer_context"
  next_peer :: peer_ref
  tracker_state :: 't

definition constructor :: "('j, 't) tracker \<Rightarrow> 't \<Rightarrow> config option \<Rightarrow> ('j, 't) gateway" where
  "constructor tr t0 arg =
     (let st = make_settings arg in
      \<lparr> tracker = tr,
        settings = st,
        logLevel = get (websockets st) ''logLevel'',
        webSocketsCount = 0,
        ssl = (get (server st) ''key_file_name'' \<noteq> JUndefined),
        ws_peer = Map.empty,
        peers = Map.empty,
        next_peer = 0,
        tracker_state = t0 \<rparr>)"

subsection \<open>The send capability (lines 91-96)\<close>

text \<open>
  \<^verbatim>\<open>peer.id ? Buffer.from(peer.id).toString("hex") : "unknown peer"\<close>: the empty
  string is falsy. \<open>Hex s\<close> stands for the hexadecimal rendering of \<open>s\<close>.
\<close>

definition id_label :: "string option \<Rightarrow> 'j arg" where
  "id_label i =
     (case i of
        None \<Rightarrow> S ''unknown peer''
      | Some s \<Rightarrow> if s \<noteq> [] then Hex s else S ''unknown peer'')"

text \<open>\<^verbatim>\<open>(peer && peer.id) ? ... : "unknown peer"\<close> of line 88, for the value read from the socket.\<close>

definition peer_label :: "('j, 't) gateway \<Rightarrow> peer_ref option \<Rightarrow> 'j arg" where
  "peer_label g peer =
     (case peer of
        None \<Rightarrow> S ''unknown peer''
      | Some p \<Rightarrow> (case peers g p of None \<Rightarrow> S ''unknown peer'' | Some c \<Rightarrow> id_label (peer_id c)))"

text \<open>
  The closure \<^verbatim>\<open>sendMessage\<close> of the object at address \<open>p\<close>: it writes to the socket
  it captured and, at log level 2, prints the message. An address with no object
  cannot be called; the model gives it no effect.
\<close>

definition sendMessage :: "('j, 't) gateway \<Rightarrow> peer_ref \<Rightarrow> 'j \<Rightarrow> 'j effect list" where
  "sendMessage g p json =
     (case peers g p of
        None \<Rightarrow> []
      | Some c \<Rightarrow>
          WsSend (peer_ws c) json #
          (if logLevel g = JNum 2
           then [Console ''log'' [S ''out'', id_label (peer_id c), J json]]
           else []))"

text \<open>What the tracker does to the peer objects while one of its methods runs.\<close>

fun callbacks :: "'j callback list \<Rightarrow> ('j, 't) gateway \<Rightarrow> ('j, 't) gateway \<times> 'j effect list" where
  "callbacks [] g = (g, [])"
| "callbacks (SetId p i # cs) g =
     callbacks cs
       (g\<lparr>peers := (case peers g p of
                      None \<Rightarrow> peers g
                    | Some c \<Rightarrow> (peers g)(p \<mapsto> c\<lparr>peer_id := Some i\<rparr>))\<rparr>)"
| "callbacks (SendMessage p json # cs) g =
     (let (g', fx) = callbacks cs g in (g', sendMessage g p json @ fx))"

subsection \<open>The four handlers (lines 70-125)\<close>

text \<open>
  A handler returns the gateway after it, its effects, and the exception that leaves
  it. The transport passes \<^verbatim>\<open>request.getUrl()\<close> to open, the payload to message
  (\<^verbatim>\<open>isBinary\<close> is not read), \<^verbatim>\<open>ws.getBufferedAmount()\<close> to drain and the close code
  to close (its \<^verbatim>\<open>message\<close> is not read).
\<close>

type_synonym ('j, 't) outcome = "('j, 't) gateway \<times> 'j effect list \<times> error option"

definition log1 :: "('j, 't) gateway \<Rightarrow> string \<Rightarrow> 'j arg list \<Rightarrow> 'j effect list" where
  "log1 g method args = (if logLevel g = JNum 1 then [Console method args] else [])"

definition log2 :: "('j, 't) gateway \<Rightarrow> string \<Rightarrow> 'j arg list \<Rightarrow> 'j effect list" where
  "log2 g method args = (if logLevel g = JNum 2 then [Console method args] else [])"

definition open_ws :: "ws \<Rightarrow> string \<Rightarrow> ('j, 't) gateway \<Rightarrow> ('j, 't) outcome" where
  "open_ws w url g =
     (g\<lparr>webSocketsCount := webSocketsCount g + 1\<rparr>,
      log1 g ''info'' [S ''ws connected via URL'', S url],
      None)"

text \<open>
  Lines 86-98: the identity bound to the socket, created and bound when there is none.
\<close>

definition bind_peer :: "ws \<Rightarrow> ('j, 't) gateway \<Rightarrow> peer_ref \<times> ('j, 't) gateway \<times> 'j effect list" where
  "bind_peer w g =
     (case ws_peer g w of
        Some p \<Rightarrow> (p, g, [])
      | None \<Rightarrow>
          (let p = next_peer g in
           (p,
            g\<lparr>ws_peer := (ws_peer g)(w \<mapsto> p),
              peers := (peers g)(p \<mapsto> \<lparr>peer_ws = w, peer_id = None\<rparr>),
              next_peer := p + 1\<rparr>,
            [NewPeer w p])))"

text \<open>
  Lines 100-110: the call of \<^verbatim>\<open>processMessage\<close> inside \<^verbatim>\<open>try\<close>; a
  \<^verbatim>\<open>TrackerError\<close> is logged and the socket closed, anything else is thrown again.
\<close>

definition dispatch :: "ws \<Rightarrow> 'j \<Rightarrow> peer_ref \<Rightarrow> ('j, 't) gateway \<Rightarrow> ('j, 't) outcome" where
  "dispatch w json p g =
     (let ((calls, thrown), t') = processMessage (tracker g) json p (tracker_state g);
          (g', fx) = callbacks calls g;
          g'' = g'\<lparr>tracker_state := t'\<rparr>
      in case thrown of
           None \<Rightarrow> (g'', ProcessMessage json p # fx, None)
         | Some (TrackerError m) \<Rightarrow>
             (g'',
              ProcessMessage json p # fx
                @ log1 g'' ''log'' [S ''failed to process message from the peer:'', E (TrackerError m)]
                @ [WsClose w],
              None)
         | Some e \<Rightarrow> (g'', ProcessMessage json p # fx, Some e))"

text \<open>
  \<open>parse\<close> is \<^verbatim>\<open>JSON.parse(decoder.end(new Uint8Array(message)))\<close>, which returns a
  value or throws; \<^verbatim>\<open>catch (e)\<close> takes whatever it throws.
\<close>

definition message ::
  "(bytes \<Rightarrow> error + 'j) \<Rightarrow> ws \<Rightarrow> bytes \<Rightarrow> ('j, 't) gateway \<Rightarrow> ('j, 't) outcome" where
  "message parse w payload g =
     (let fx0 = log1 g ''info'' [S ''ws message of size'', N (int (length payload))] in
      case parse payload of
        Inl e \<Rightarrow>
          (g, fx0 @ log1 g ''warn'' [S ''failed to parse JSON message'', E e] @ [WsClose w], None)
      | Inr json \<Rightarrow>
          (let fx1 = log2 g ''log'' [S ''in'', peer_label g (ws_peer g w), J json];
               (p, g1, fx2) = bind_peer w g;
               (g2, fx3, thrown) = dispatch w json p g1
           in (g2, fx0 @ fx1 @ fx2 @ fx3, thrown)))"

definition drain :: "ws \<Rightarrow> nat \<Rightarrow> ('j, 't) gateway \<Rightarrow> ('j, 't) outcome" where
  "drain w buffered g = (g, log1 g ''info'' [S ''ws backpressure'', N (int buffered)], None)"

definition close :: "ws \<Rightarrow> int \<Rightarrow> ('j, 't) gateway \<Rightarrow> ('j, 't) outcome" where
  "close w code g =
     (let g1 = g\<lparr>webSocketsCount := webSocketsCount g - 1\<rparr>;
          closed = log1 g ''info'' [S ''ws closed with code'', N code]
      in case ws_peer g1 w of
           None \<Rightarrow> (g1, closed, None)
         | Some p \<Rightarrow>
             (let g2 = g1\<lparr>ws_peer := (ws_peer g1)(w := None)\<rparr>;
                  ((calls, thrown), t') = disconnectPeer (tracker g2) p (tracker_state g2);
                  (g3, fx) = callbacks calls g2;
                  g4 = g3\<lparr>tracker_state := t'\<rparr>
              in case thrown of
                   None \<Rightarrow> (g4, DisconnectPeer p # fx @ closed, None)
                 | Some e \<Rightarrow> (g4, DisconnectPeer p # fx, Some e)))"

subsection \<open>The transport's events\<close>

text \<open>
  The transport runs one handler at a time, to completion. \<open>deliver\<close> runs the
  handlers of a list of events in order and keeps, for every event, the effects of its
  handler and the exception that left it. What happens to the process after such an
  exception is decided outside the gateway: the list given to \<open>deliver\<close> is the list
  of events whose handlers did run. \<^verbatim>\<open>ws.close()\<close> is an effect here and the close
  handler runs at the \<open>Close\<close> event; the handlers do nothing after calling
  \<^verbatim>\<open>ws.close()\<close>, so a transport that runs the close handler inside that call reaches
  the same gateway.
\<close>

datatype event = Open ws string | Message ws bytes | Drain ws nat | Close ws int

fun handle :: "(bytes \<Rightarrow> error + 'j) \<Rightarrow> event \<Rightarrow> ('j, 't) gateway \<Rightarrow> ('j, 't) outcome" where
  "handle parse (Open w url) g = open_ws w url g"
| "handle parse (Message w payload) g = message parse w payload g"
| "handle parse (Drain w buffered) g = drain w buffered g"
| "handle parse (Close w code) g = close w code g"

type_synonym 'j log = "(event \<times> 'j effect list \<times> error option) list"

fun deliver ::
  "(bytes \<Rightarrow> error + 'j) \<Rightarrow> event list \<Rightarrow> ('j, 't) gateway \<Rightarrow> ('j, 't) gateway \<times> 'j log" where
  "deliver parse [] g = (g, [])"
| "deliver parse (e # es) g =
     (let (g', fx, thrown) = handle parse e g;
          (g'', rest) = deliver parse es g'
      in (g'', (e, fx, thrown) # rest))"

subsection \<open>The start operation (lines 129-147)\<close>

text \<open>
  A promise is pending until the first call of \<^verbatim>\<open>resolve\<close> or \<^verbatim>\<open>reject\<close> settles it;
  later calls leave it as it is. \<open>Rejected\<close> carries the message of the \<^verbatim>\<open>Error\<close>.
\<close>

datatype promise = Pending | Fulfilled | Rejected string

fun resolve :: "promise \<Rightarrow> promise" where
  "resolve Pending = Fulfilled"
| "resolve p = p"

fun reject :: "string \<Rightarrow> promise \<Rightarrow> promise" where
  "reject msg Pending = Rejected msg"
| "reject msg p = p"

text \<open>The callback given to \<^verbatim>\<open>app_.listen\<close> (lines 138-144).\<close>

definition listen_callback :: "('j, 't) gateway \<Rightarrow> jsvalue \<Rightarrow> promise \<Rightarrow> promise" where
  "listen_callback g token pr =
     (if truthy token then resolve pr
      else reject
             (''failed to listen to '' @ to_string (get (server (settings g)) ''host'')
                @ '':'' @ to_string (get (server (settings g)) ''port''))
             pr)"

text \<open>
  \<^verbatim>\<open>run\<close> creates the promise, hands the callback to \<^verbatim>\<open>listen\<close> and returns the
  promise. \<open>tokens\<close> are the tokens with which the transport calls the callback, in
  order: none when it never calls it.
\<close>

definition run :: "('j, 't) gateway \<Rightarrow> jsvalue list \<Rightarrow> promise" where
  "run g tokens = foldl (\<lambda>pr token. listen_callback g token pr) Pending tokens"

subsection \<open>Reading the effects\<close>

text \<open>
  The identities created for a socket, the identities passed to \<^verbatim>\<open>processMessage\<close>
  and to \<^verbatim>\<open>disconnectPeer\<close>, and the sockets closed, each in the order of the effects.
\<close>

fun created :: "ws \<Rightarrow> 'j effect list \<Rightarrow> peer_ref list" where
  "created w [] = []"
| "created w (NewPeer w' p # fx) = (if w' = w then p # created w fx else created w fx)"
| "created w (x # fx) = created w fx"

fun processed :: "'j effect list \<Rightarrow> peer_ref list" where
  "processed [] = []"
| "processed (ProcessMessage json p # fx) = p # processed fx"
| "processed (x # fx) = processed fx"

fun disconnected :: "'j effect list \<Rightarrow> peer_ref list" where
  "disconnected [] = []"
| "disconnected (DisconnectPeer p # fx) = p # disconnected fx"
| "disconnected (x # fx) = disconnected fx"

fun closed :: "'j effect list \<Rightarrow> ws list" where
  "closed [] = []"
| "closed (WsClose w # fx) = w # closed fx"
| "closed (x # fx) = closed fx"

text \<open>The effects without the console calls.\<close>

fun quiet :: "'j effect list \<Rightarrow> 'j effect list" where
  "quiet [] = []"
| "quiet (Console method args # fx) = quiet fx"
| "quiet (x # fx) = x # quiet fx"

definition quiet_log :: "'j log \<Rightarrow> 'j log" where
  "quiet_log lg = map (\<lambda>(e, fx, thrown). (e, quiet fx, thrown)) lg"

text \<open>The socket of an event; all effects of a log; the effects of the events of one socket.\<close>

fun event_ws :: "event \<Rightarrow> ws" where
  "event_ws (Open w url) = w"
| "event_ws (Message w payload) = w"
| "event_ws (Drain w buffered) = w"
| "event_ws (Close w code) = w"

fun effects_of :: "'j log \<Rightarrow> 'j effect list" where
  "effects_of [] = []"
| "effects_of ((e, fx, thrown) # lg) = fx @ effects_of lg"

fun effects_on :: "ws \<Rightarrow> 'j log \<Rightarrow> 'j effect list" where
  "effects_on w [] = []"
| "effects_on w ((e, fx, thrown) # lg) =
     (if event_ws e = w then fx @ effects_on w lg else effects_on w lg)"

fun opens :: "event list \<Rightarrow> nat" where
  "opens [] = 0"
| "opens (Open w url # es) = Suc (opens es)"
| "opens (e # es) = opens es"

fun closes :: "event list \<Rightarrow> nat" where
  "closes [] = 0"
| "closes (Close w code # es) = Suc (closes es)"
| "closes (e # es) = closes es"

text \<open>
  What the transport promises about the events of one socket: an open first, on a
  socket never seen before; messages and drains only while the socket is open; one
  close, and nothing after it. \<open>live\<close> are the open sockets, \<open>gone\<close> the closed ones.
\<close>

fun transport_ok :: "ws set \<Rightarrow> ws set \<Rightarrow> event list \<Rightarrow> bool" where
  "transport_ok live gone [] = True"
| "transport_ok live gone (Open w url # es) =
     (w \<notin> live \<and> w \<notin> gone \<and> transport_ok (insert w live) gone es)"
| "transport_ok live gone (Message w payload # es) = (w \<in> live \<and> transport_ok live gone es)"
| "transport_ok live gone (Drain w buffered # es) = (w \<in> live \<and> transport_ok live gone es)"
| "transport_ok live gone (Close w code # es) =
     (w \<in> live \<and> transport_ok (live - {w}) (insert w gone) es)"

subsection \<open>An example tracker and decoder\<close>

text \<open>
  A decoder that rejects one payload, and a tracker that rejects one message with a
  \<^verbatim>\<open>TrackerError\<close>, fails on another with some other exception, and otherwise names
  the peer and answers it.
\<close>

definition example_parse :: "bytes \<Rightarrow> error + string" where
  "example_parse payload =
     (if payload = ''{not json'' then Inl (SyntaxError ''Unexpected token n'') else Inr payload)"

definition example_tracker :: "(string, nat) tracker" where
  "example_tracker =
     \<lparr> processMessage = (\<lambda>json p t.
         if json = ''reject'' then (([], Some (TrackerError ''rejected'')), t)
         else if json = ''crash'' then (([], Some (OtherError ''crash'')), t)
         else (([SetId p ''ab'', SendMessage p ''ack''], None), t + 1)),
       disconnectPeer = (\<lambda>p t. (([], None), t)) \<rparr>"

definition level_config :: "int \<Rightarrow> config option" where
  "level_config n = Some \<lparr> cfg_server = None, cfg_websockets = Some [''logLevel'' \<mapsto> JNum n] \<rparr>"

subsection \<open>Gateways that differ only in what they log\<close>

text \<open>
  Two gateways are the same but for logging when they agree on every field except
  \<open>logLevel\<close> and \<open>settings\<close> (no handler reads \<open>settings\<close>).
\<close>

definition same_but_logging :: "('j, 't) gateway \<Rightarrow> ('j, 't) gateway \<Rightarrow> bool" where
  "same_but_logging a b \<longleftrightarrow>
     tracker a = tracker b \<and> webSocketsCount a = webSocketsCount b \<and> ssl a = ssl b
     \<and> ws_peer a = ws_peer b \<and> peers a = peers b \<and> next_peer a = next_peer b
     \<and> tracker_state a = tracker_state b"

subsection \<open>The message codec (lines 79 and 93)\<close>

text \<open>
  Modelled from the spec: the codec of section 4.1 is \<^verbatim>\<open>JSON.stringify\<close> (encode, line
  93) and \<^verbatim>\<open>JSON.parse\<close> after a UTF-8 \<^verbatim>\<open>StringDecoder\<close> (decode, line 79). All three
  are built-ins of the runtime; none is code of this repository. The definitions of this
  subsection follow the rules ECMAScript gives for the two JSON functions
  (SerializeJSONProperty, QuoteJSONString and the JSON grammar), within these bounds:
  \<^item> A string is the list of the bytes of its UTF-8 form, which is what \<^verbatim>\<open>ws.send\<close>
    writes and what the decoder reads back; payloads that are not well-formed UTF-8 and
    strings with unpaired surrogates are outside the model.
  \<^item> \<open>Integer n\<close> is the number \<open>n\<close>; the numbers JavaScript has among them include all
    of magnitude below \<open>2^53\<close>. Numbers with a fraction are not modelled.
  \<^item> An object is the list of its own enumerable properties in enumeration order. The
    parser keeps the keys in the order of the text; JavaScript enumerates the keys
    that are array indices before the others, so an object read from a text in which
    such a key follows another kind of key is listed in another order than here.
  \<^item> Values with a \<^verbatim>\<open>toJSON\<close> method, functions, symbols, BigInts and cyclic values are
    not in the datatype.
\<close>

datatype number = Integer int | NaN | Infinity | NegInfinity

datatype structured =
    VUndefined
  | VNull
  | VBool bool
  | VNum number
  | VStr string
  | VArr "structured list"
  | VObj "(string \<times> structured) list"

text \<open>
  \<^verbatim>\<open>QuoteJSONString\<close>: the two-character escapes, \<^verbatim>\<open>\u00xx\<close> for the other control
  characters, every other byte as it is.
\<close>

definition hex_digit :: "nat \<Rightarrow> char" where
  "hex_digit n = ''0123456789abcdef'' ! n"

definition quote_char :: "char \<Rightarrow> string" where
  "quote_char c =
     (if c = CHR 0x08 then [CHR 0x5C, CHR ''b'']
      else if c = CHR 0x09 then [CHR 0x5C, CHR ''t'']
      else if c = CHR 0x0A then [CHR 0x5C, CHR ''n'']
      else if c = CHR 0x0C then [CHR 0x5C, CHR ''f'']
      else if c = CHR 0x0D then [CHR 0x5C, CHR ''r'']
      else if c = CHR 0x22 then [CHR 0x5C, CHR 0x22]
      else if c = CHR 0x5C then [CHR 0x5C, CHR 0x5C]
      else if (of_char c :: nat) < 0x20
        then [CHR 0x5C, CHR ''u'', CHR ''0'', CHR ''0'',
              hex_digit (of_char c div 16), hex_digit (of_char c mod 16)]
      else [c])"

definition quote :: "string \<Rightarrow> string" where
  "quote s = CHR 0x22 # concat (map quote_char s) @ [CHR 0x22]"

fun join :: "string list \<Rightarrow> string" where
  "join [] = []"
| "join [t] = t"
| "join (t # ts) = t @ '','' @ join ts"

text \<open>
  Modelled from the spec: \<^verbatim>\<open>SerializeJSONProperty\<close>. \<open>None\<close> is the result
  \<^verbatim>\<open>undefined\<close>, given for the value \<^verbatim>\<open>undefined\<close>; an array writes such an element as
  \<^verbatim>\<open>null\<close> and an object leaves such a property out. A number that is not finite is
  written \<^verbatim>\<open>null\<close>; an integer is written as \<^verbatim>\<open>Number::toString\<close> writes it.
\<close>

fun stringify :: "structured \<Rightarrow> string option"
  and elements :: "structured list \<Rightarrow> string list"
  and members :: "(string \<times> structured) list \<Rightarrow> string list" where
  "stringify VUndefined = None"
| "stringify VNull = Some ''null''"
| "stringify (VBool b) = Some (if b then ''true'' else ''false'')"
| "stringify (VNum (Integer n)) = Some (to_string (JNum n))"
| "stringify (VNum NaN) = Some ''null''"
| "stringify (VNum Infinity) = Some ''null''"
| "stringify (VNum NegInfinity) = Some ''null''"
| "stringify (VStr s) = Some (quote s)"
| "stringify (VArr vs) = Some (''['' @ join (elements vs) @ '']'')"
| "stringify (VObj ms) = Some (''{'' @ join (members ms) @ ''}'')"
| "elements [] = []"
| "elements (v # vs) = (case stringify v of None \<Rightarrow> ''null'' | Some t \<Rightarrow> t) # elements vs"
| "members [] = []"
| "members ((k, v) # ms) =
     (case stringify v of
        None \<Rightarrow> members ms
      | Some t \<Rightarrow> (quote k @ '':'' @ t) # members ms)"


text \<open>
  The result of parsing: a value, a \<^verbatim>\<open>SyntaxError\<close>, or \<open>Beyond\<close> when the text uses
  what the model leaves out: a number with a fraction or an exponent, of magnitude
  \<open>2^53\<close> or more, or \<^verbatim>\<open>-0\<close>; a \<^verbatim>\<open>\u\<close> escape above \<^verbatim>\<open>007f\<close>.
\<close>

datatype 'a parsed = Parsed 'a | Throws | Beyond

fun bind :: "'a parsed \<Rightarrow> ('a \<Rightarrow> 'b parsed) \<Rightarrow> 'b parsed" where
  "bind (Parsed x) f = f x"
| "bind Throws f = Throws"
| "bind Beyond f = Beyond"

definition is_ws :: "char \<Rightarrow> bool" where
  "is_ws c \<longleftrightarrow> c = CHR 0x20 \<or> c = CHR 0x09 \<or> c = CHR 0x0A \<or> c = CHR 0x0D"

definition skip_ws :: "string \<Rightarrow> string" where
  "skip_ws s = dropWhile is_ws s"






text \<open>The characters of a string after its opening quote, up to the closing one.\<close>

definition prepend :: "char \<Rightarrow> (string \<times> string) parsed \<Rightarrow> (string \<times> string) parsed" where
  "prepend c p = bind p (\<lambda>(t, rest). Parsed (c # t, rest))"









text \<open>
  The values that JSON represents: no \<^verbatim>\<open>undefined\<close>, no number that is not finite,
  integers within the range where every integer is a JavaScript number, objects with
  distinct keys.
\<close>

fun representable :: "structured \<Rightarrow> bool" where
  "representable VUndefined = False"
| "representable VNull = True"
| "representable (VBool b) = True"
| "representable (VNum (Integer n)) = (- (2 ^ 53) < n \<and> n < 2 ^ 53)"
| "representable (VNum x) = False"
| "representable (VStr s) = True"
| "representable (VArr vs) = (\<forall>v \<in> set vs. representable v)"
| "representable (VObj ms) = (distinct (map fst ms) \<and> (\<forall>v \<in> snd ` set ms. representable v))"



section \<open>Properties\<close>

subsection \<open>Basic facts\<close>

lemma created_append [simp]: "created w (xs @ ys) = created w xs @ created w ys"
  by (induction w xs rule: created.induct) auto

lemma processed_append [simp]: "processed (xs @ ys) = processed xs @ processed ys"
  by (induction xs rule: processed.induct) auto

lemma disconnected_append [simp]: "disconnected (xs @ ys) = disconnected xs @ disconnected ys"
  by (induction xs rule: disconnected.induct) auto

lemma closed_append [simp]: "closed (xs @ ys) = closed xs @ closed ys"
  by (induction xs rule: closed.induct) auto

lemma quiet_append [simp]: "quiet (xs @ ys) = quiet xs @ quiet ys"
  by (induction xs rule: quiet.induct) auto

lemma log1_quiet [simp]:
  "created w (log1 g m a) = []" "processed (log1 g m a) = []"
  "disconnected (log1 g m a) = []" "closed (log1 g m a) = []" "quiet (log1 g m a) = []"
  by (simp_all add: log1_def)

lemma log2_quiet [simp]:
  "created w (log2 g m a) = []" "processed (log2 g m a) = []"
  "disconnected (log2 g m a) = []" "closed (log2 g m a) = []" "quiet (log2 g m a) = []"
  by (simp_all add: log2_def)

lemma sendMessage_quiet [simp]:
  "created w (sendMessage g p j) = []" "processed (sendMessage g p j) = []"
  "disconnected (sendMessage g p j) = []" "closed (sendMessage g p j) = []"
  by (simp_all add: sendMessage_def split: option.splits)

lemma callbacks_quiet [simp]:
  "created w (snd (callbacks cs g)) = []" "processed (snd (callbacks cs g)) = []"
  "disconnected (snd (callbacks cs g)) = []" "closed (snd (callbacks cs g)) = []"
  by (induction cs g rule: callbacks.induct) (simp_all add: split_beta)

lemma callbacks_fields [simp]:
  "ws_peer (fst (callbacks cs g)) = ws_peer g"
  "webSocketsCount (fst (callbacks cs g)) = webSocketsCount g"
  "logLevel (fst (callbacks cs g)) = logLevel g"
  "next_peer (fst (callbacks cs g)) = next_peer g"
  "tracker (fst (callbacks cs g)) = tracker g"
  "tracker_state (fst (callbacks cs g)) = tracker_state g"
  "settings (fst (callbacks cs g)) = settings g"
  by (induction cs g rule: callbacks.induct) (simp_all add: split_beta)

lemma constructor_fields:
  "logLevel (constructor tr t0 arg) = get (websockets (make_settings arg)) ''logLevel''"
  "webSocketsCount (constructor tr t0 arg) = 0"
  "ws_peer (constructor tr t0 arg) = Map.empty"
  "peers (constructor tr t0 arg) = Map.empty"
  "next_peer (constructor tr t0 arg) = 0"
  "tracker (constructor tr t0 arg) = tr"
  "tracker_state (constructor tr t0 arg) = t0"
  "settings (constructor tr t0 arg) = make_settings arg"
  by (simp_all add: constructor_def Let_def)

lemma default_settings:
  "get (server (make_settings None)) ''host'' = JStr ''0.0.0.0''"
  "get (server (make_settings None)) ''port'' = JNum 8000"
  "get (websockets (make_settings None)) ''logLevel'' = JNum 0"
  by (simp_all add: make_settings_def spread_def server_defaults_def websockets_defaults_def
      section_of_def get_def)

lemma level_config_logLevel:
  "get (websockets (make_settings (level_config n))) ''logLevel'' = JNum n"
  by (simp add: make_settings_def spread_def section_of_def get_def level_config_def)

subsection \<open>What each handler does to the fields and the effects\<close>

lemma bind_peer_fields [simp]:
  "webSocketsCount (fst (snd (bind_peer w g))) = webSocketsCount g"
  "logLevel (fst (snd (bind_peer w g))) = logLevel g"
  "tracker (fst (snd (bind_peer w g))) = tracker g"
  "tracker_state (fst (snd (bind_peer w g))) = tracker_state g"
  "settings (fst (snd (bind_peer w g))) = settings g"
  by (simp_all add: bind_peer_def Let_def split: option.splits)

lemma bind_peer_result:
  "fst (bind_peer w g) = (case ws_peer g w of Some p \<Rightarrow> p | None \<Rightarrow> next_peer g)"
  "ws_peer (fst (snd (bind_peer w g))) =
     (case ws_peer g w of Some p \<Rightarrow> ws_peer g | None \<Rightarrow> (ws_peer g)(w \<mapsto> next_peer g))"
  "snd (snd (bind_peer w g)) = (case ws_peer g w of Some p \<Rightarrow> [] | None \<Rightarrow> [NewPeer w (next_peer g)])"
  by (simp_all add: bind_peer_def Let_def split: option.splits)

lemma dispatch_fields [simp]:
  "webSocketsCount (fst (dispatch w json p g)) = webSocketsCount g"
  "logLevel (fst (dispatch w json p g)) = logLevel g"
  "ws_peer (fst (dispatch w json p g)) = ws_peer g"
  "tracker (fst (dispatch w json p g)) = tracker g"
  "next_peer (fst (dispatch w json p g)) = next_peer g"
  "settings (fst (dispatch w json p g)) = settings g"
  by (simp_all add: dispatch_def Let_def split_beta split: option.splits error.splits)

lemma dispatch_effects [simp]:
  "created w' (fst (snd (dispatch w json p g))) = []"
  "processed (fst (snd (dispatch w json p g))) = [p]"
  "disconnected (fst (snd (dispatch w json p g))) = []"
  by (simp_all add: dispatch_def Let_def split_beta split: option.splits error.splits)

lemma dispatch_thrown:
  "snd (snd (dispatch w json p g)) =
     (case snd (fst (processMessage (tracker g) json p (tracker_state g))) of
        None \<Rightarrow> None
      | Some (TrackerError m) \<Rightarrow> None
      | Some e \<Rightarrow> Some e)"
  "closed (fst (snd (dispatch w json p g))) =
     (case snd (fst (processMessage (tracker g) json p (tracker_state g))) of
        Some (TrackerError m) \<Rightarrow> [w]
      | _ \<Rightarrow> [])"
  by (simp_all add: dispatch_def Let_def split_beta split: option.splits error.splits)

lemma message_undecodable:
  "parse payload = Inl e \<Longrightarrow>
   message parse w payload g =
     (g, log1 g ''info'' [S ''ws message of size'', N (int (length payload))]
           @ log1 g ''warn'' [S ''failed to parse JSON message'', E e] @ [WsClose w], None)"
  by (simp add: message_def)

lemma message_decoded:
  "parse payload = Inr json \<Longrightarrow>
   message parse w payload g =
     (fst (dispatch w json (fst (bind_peer w g)) (fst (snd (bind_peer w g)))),
      log1 g ''info'' [S ''ws message of size'', N (int (length payload))]
        @ log2 g ''log'' [S ''in'', peer_label g (ws_peer g w), J json]
        @ snd (snd (bind_peer w g))
        @ fst (snd (dispatch w json (fst (bind_peer w g)) (fst (snd (bind_peer w g))))),
      snd (snd (dispatch w json (fst (bind_peer w g)) (fst (snd (bind_peer w g))))))"
  by (simp add: message_def Let_def split_beta)

lemma message_fields [simp]:
  "webSocketsCount (fst (message parse w payload g)) = webSocketsCount g"
  "logLevel (fst (message parse w payload g)) = logLevel g"
  "tracker (fst (message parse w payload g)) = tracker g"
  "settings (fst (message parse w payload g)) = settings g"
  by (cases "parse payload"; simp add: message_undecodable message_decoded)+

lemma message_ws_peer:
  "ws_peer (fst (message parse w payload g)) =
     (case parse payload of
        Inl e \<Rightarrow> ws_peer g
      | Inr json \<Rightarrow> (case ws_peer g w of Some p \<Rightarrow> ws_peer g | None \<Rightarrow> (ws_peer g)(w \<mapsto> next_peer g)))"
  by (cases "parse payload") (simp_all add: message_undecodable message_decoded bind_peer_result)

lemma message_created:
  "created w' (fst (snd (message parse w payload g))) =
     (case parse payload of
        Inl e \<Rightarrow> []
      | Inr json \<Rightarrow> (case ws_peer g w of Some p \<Rightarrow> [] | None \<Rightarrow> if w = w' then [next_peer g] else []))"
  by (cases "parse payload")
     (simp_all add: message_undecodable message_decoded bind_peer_result split: option.splits)

lemma message_processed:
  "processed (fst (snd (message parse w payload g))) =
     (case parse payload of
        Inl e \<Rightarrow> []
      | Inr json \<Rightarrow> [case ws_peer g w of Some p \<Rightarrow> p | None \<Rightarrow> next_peer g])"
  by (cases "parse payload")
     (simp_all add: message_undecodable message_decoded bind_peer_result split: option.splits)

lemma message_disconnected [simp]:
  "disconnected (fst (snd (message parse w payload g))) = []"
  by (cases "parse payload")
     (simp_all add: message_undecodable message_decoded bind_peer_result split: option.splits)

lemma open_ws_simps [simp]:
  "webSocketsCount (fst (open_ws w url g)) = webSocketsCount g + 1"
  "logLevel (fst (open_ws w url g)) = logLevel g"
  "ws_peer (fst (open_ws w url g)) = ws_peer g"
  "tracker (fst (open_ws w url g)) = tracker g"
  "created w' (fst (snd (open_ws w url g))) = []"
  "processed (fst (snd (open_ws w url g))) = []"
  "disconnected (fst (snd (open_ws w url g))) = []"
  by (simp_all add: open_ws_def)

lemma drain_simps [simp]:
  "fst (drain w n g) = g"
  "created w' (fst (snd (drain w n g))) = []"
  "processed (fst (snd (drain w n g))) = []"
  "disconnected (fst (snd (drain w n g))) = []"
  by (simp_all add: drain_def)

lemma close_simps [simp]:
  "webSocketsCount (fst (close w code g)) = webSocketsCount g - 1"
  "logLevel (fst (close w code g)) = logLevel g"
  "tracker (fst (close w code g)) = tracker g"
  "created w' (fst (snd (close w code g))) = []"
  "processed (fst (snd (close w code g))) = []"
  "disconnected (fst (snd (close w code g))) = (case ws_peer g w of None \<Rightarrow> [] | Some p \<Rightarrow> [p])"
  by (simp_all add: close_def Let_def split_beta split: option.splits)

lemma close_ws_peer [simp]:
  "ws_peer (fst (close w code g)) = (ws_peer g)(w := None)"
  by (auto simp add: close_def Let_def split_beta fun_upd_idem split: option.splits)

lemma deliver_Cons:
  "deliver parse (e # es) g =
     (fst (deliver parse es (fst (handle parse e g))),
      (e, fst (snd (handle parse e g)), snd (snd (handle parse e g)))
        # snd (deliver parse es (fst (handle parse e g))))"
  by (simp add: split_beta)

declare deliver.simps(2) [simp del]

lemma handle_count:
  "webSocketsCount (fst (handle parse e g)) =
     webSocketsCount g + int (opens [e]) - int (closes [e])"
  by (cases e) simp_all

lemma deliver_count:
  "webSocketsCount (fst (deliver parse es g)) = webSocketsCount g + int (opens es) - int (closes es)"
proof (induction es arbitrary: g)
  case Nil
  then show ?case by simp
next
  case (Cons e es)
  show ?case
    by (cases e) (simp_all add: deliver_Cons Cons.IH)
qed

lemma example_eval:
  "processMessage example_tracker json p t =
     (if json = ''reject'' then (([], Some (TrackerError ''rejected'')), t)
      else if json = ''crash'' then (([], Some (OtherError ''crash'')), t)
      else (([SetId p ''ab'', SendMessage p ''ack''], None), t + 1))"
  "disconnectPeer example_tracker p t = (([], None), t)"
  by (simp_all add: example_tracker_def)

lemmas eval_defs = deliver_Cons open_ws_def message_def close_def drain_def bind_peer_def dispatch_def
  sendMessage_def log1_def log2_def Let_def split_beta example_eval example_parse_def
  constructor_def level_config_logLevel default_settings peer_label_def id_label_def

subsection \<open>The settings\<close>

text \<open>
  C7. With no argument the effective settings are the defaults: port 8000 and host
  "0.0.0.0" for the server; path "/", maxPayloadLength 65536, idleTimeout 240,
  compression 1 and logLevel 0 for the websockets. With an argument \<open>c\<close>, each section
  is the caller's section of \<open>c\<close> laid over the defaults, property by property: a
  property the caller's section gives has the caller's value, any other has its
  default, and a section the caller leaves out is all defaults. The log level the
  handlers read is the \<^verbatim>\<open>logLevel\<close> of the effective websockets section.
\<close>

theorem constructor_settings_merge:
  "server (settings (constructor tr t0 None)) = [''port'' \<mapsto> JNum 8000, ''host'' \<mapsto> JStr ''0.0.0.0'']
   \<and> websockets (settings (constructor tr t0 None)) =
       [''path'' \<mapsto> JStr ''/'', ''maxPayloadLength'' \<mapsto> JNum 65536,
        ''idleTimeout'' \<mapsto> JNum 240, ''compression'' \<mapsto> JNum 1, ''logLevel'' \<mapsto> JNum 0]
   \<and> server (settings (constructor tr t0 (Some c))) k =
       (case cfg_server c of
          None \<Rightarrow> [''port'' \<mapsto> JNum 8000, ''host'' \<mapsto> JStr ''0.0.0.0''] k
        | Some given \<Rightarrow>
            (case given k of
               Some v \<Rightarrow> Some v
             | None \<Rightarrow> [''port'' \<mapsto> JNum 8000, ''host'' \<mapsto> JStr ''0.0.0.0''] k))
   \<and> websockets (settings (constructor tr t0 (Some c))) k =
       (case cfg_websockets c of
          None \<Rightarrow>
            [''path'' \<mapsto> JStr ''/'', ''maxPayloadLength'' \<mapsto> JNum 65536,
             ''idleTimeout'' \<mapsto> JNum 240, ''compression'' \<mapsto> JNum 1, ''logLevel'' \<mapsto> JNum 0] k
        | Some given \<Rightarrow>
            (case given k of
               Some v \<Rightarrow> Some v
             | None \<Rightarrow>
                 [''path'' \<mapsto> JStr ''/'', ''maxPayloadLength'' \<mapsto> JNum 65536,
                  ''idleTimeout'' \<mapsto> JNum 240, ''compression'' \<mapsto> JNum 1, ''logLevel'' \<mapsto> JNum 0] k))
   \<and> logLevel (constructor tr t0 arg) = get (websockets (settings (constructor tr t0 arg))) ''logLevel''"
proof -
  have s: "server (settings (constructor tr t0 a)) = server_defaults ++ section_of a cfg_server"
    and w: "websockets (settings (constructor tr t0 a)) = websockets_defaults ++ section_of a cfg_websockets"
    and l: "logLevel (constructor tr t0 a) = get (websockets (settings (constructor tr t0 a))) ''logLevel''"
    for a
    by (simp_all add: constructor_def make_settings_def spread_def Let_def)
  have ds: "server_defaults = [''port'' \<mapsto> JNum 8000, ''host'' \<mapsto> JStr ''0.0.0.0'']"
    by (simp add: server_defaults_def)
  have dw: "websockets_defaults = [''path'' \<mapsto> JStr ''/'', ''maxPayloadLength'' \<mapsto> JNum 65536,
                 ''idleTimeout'' \<mapsto> JNum 240, ''compression'' \<mapsto> JNum 1,
                 ''logLevel'' \<mapsto> JNum 0]"
    by (simp add: websockets_defaults_def)
  have n1: "server (settings (constructor tr t0 None)) = server_defaults"
    and n2: "websockets (settings (constructor tr t0 None)) = websockets_defaults"
    by (simp_all add: s w section_of_def)
  have c1: "server (settings (constructor tr t0 (Some c))) k =
       (case cfg_server c of
          None \<Rightarrow> server_defaults k
        | Some given \<Rightarrow> (case given k of Some v \<Rightarrow> Some v | None \<Rightarrow> server_defaults k))"
    by (simp add: s section_of_def map_add_def split: option.splits)
  have c2: "websockets (settings (constructor tr t0 (Some c))) k =
       (case cfg_websockets c of
          None \<Rightarrow> websockets_defaults k
        | Some given \<Rightarrow> (case given k of Some v \<Rightarrow> Some v | None \<Rightarrow> websockets_defaults k))"
    by (simp add: w section_of_def map_add_def split: option.splits)
  from n1 n2 c1 c2 l [of arg] show ?thesis
    unfolding ds dw by (intro conjI)
qed

theorem constructor_settings_merge_witness:
  "get (server (settings (constructor example_tracker 0
      (Some \<lparr> cfg_server = Some [''port'' \<mapsto> JNum 9000],
              cfg_websockets = Some [''logLevel'' \<mapsto> JNum 2, ''idleTimeout'' \<mapsto> JNum 60] \<rparr>)))) ''port'' = JNum 9000
   \<and> get (server (settings (constructor example_tracker 0
      (Some \<lparr> cfg_server = Some [''port'' \<mapsto> JNum 9000],
              cfg_websockets = Some [''logLevel'' \<mapsto> JNum 2, ''idleTimeout'' \<mapsto> JNum 60] \<rparr>)))) ''host'' = JStr ''0.0.0.0''
   \<and> get (websockets (settings (constructor example_tracker 0
      (Some \<lparr> cfg_server = Some [''port'' \<mapsto> JNum 9000],
              cfg_websockets = Some [''logLevel'' \<mapsto> JNum 2, ''idleTimeout'' \<mapsto> JNum 60] \<rparr>)))) ''idleTimeout'' = JNum 60
   \<and> get (websockets (settings (constructor example_tracker 0
      (Some \<lparr> cfg_server = Some [''port'' \<mapsto> JNum 9000],
              cfg_websockets = Some [''logLevel'' \<mapsto> JNum 2, ''idleTimeout'' \<mapsto> JNum 60] \<rparr>)))) ''maxPayloadLength'' = JNum 65536
   \<and> logLevel (constructor example_tracker 0
      (Some \<lparr> cfg_server = Some [''port'' \<mapsto> JNum 9000],
              cfg_websockets = Some [''logLevel'' \<mapsto> JNum 2, ''idleTimeout'' \<mapsto> JNum 60] \<rparr>)) = JNum 2
   \<and> get (websockets (settings (constructor example_tracker 0 None))) ''maxPayloadLength'' = JNum 65536"
proof -
  let ?c = "\<lparr> cfg_server = Some [''port'' \<mapsto> JNum 9000],
              cfg_websockets = Some [''logLevel'' \<mapsto> JNum 2, ''idleTimeout'' \<mapsto> JNum 60] \<rparr>"
  note t = constructor_settings_merge [of example_tracker 0 ?c _ "Some ?c"]
  show ?thesis
    using t [of "''port''"] t [of "''host''"] t [of "''idleTimeout''"] t [of "''maxPayloadLength''"]
      t [of "''logLevel''"]
    by (simp add: get_def)
qed

subsection \<open>The start operation\<close>

lemma settled:
  "pr \<noteq> Pending \<Longrightarrow> foldl (\<lambda>pr t. listen_callback g t pr) pr ts = pr"
proof (induction ts arbitrary: pr)
  case Nil
  then show ?case by simp
next
  case (Cons t ts)
  then have "listen_callback g t pr = pr"
    by (cases pr) (simp_all add: listen_callback_def)
  with Cons show ?case by simp
qed

text \<open>
  C8. The promise of \<^verbatim>\<open>run\<close> is pending until the listen callback is called. The
  first call settles it: fulfilled when the token is truthy, otherwise rejected with
  the message "failed to listen to host:port" built from the configured host and
  port. Whatever tokens later calls carry, the promise stays as the first call left
  it.
\<close>

theorem run_settles_once:
  "run g [] = Pending
   \<and> run g (token # later) =
       (if truthy token then Fulfilled
        else Rejected (''failed to listen to '' @ to_string (get (server (settings g)) ''host'')
                        @ '':'' @ to_string (get (server (settings g)) ''port'')))"
proof -
  have first: "listen_callback g token Pending =
       (if truthy token then Fulfilled
        else Rejected (''failed to listen to '' @ to_string (get (server (settings g)) ''host'')
                        @ '':'' @ to_string (get (server (settings g)) ''port'')))"
    by (simp add: listen_callback_def)
  then have "listen_callback g token Pending \<noteq> Pending"
    by simp
  then have "run g (token # later) = listen_callback g token Pending"
    by (simp add: run_def settled)
  with first show ?thesis
    by (simp add: run_def)
qed

theorem run_settles_once_witness:
  "run (constructor example_tracker 0 None) [JBool False, JObj 1] = Rejected ''failed to listen to 0.0.0.0:8000''
   \<and> run (constructor example_tracker 0 None) [JObj 1, JBool False] = Fulfilled"
proof -
  have d: "digits 8000 = ''8000''"
    by (simp add: digits.simps)
  show ?thesis
    using run_settles_once [of "constructor example_tracker 0 None" "JBool False" "[JObj 1]"]
      run_settles_once [of "constructor example_tracker 0 None" "JObj 1" "[JBool False]"]
    by (simp add: constructor_fields default_settings d)
qed

subsection \<open>The drain handler\<close>

text \<open>
  C6, as the code has it. The drain handler leaves the gateway as it is (connection
  count, identity bindings and tracker untouched), calls nothing of the tracker and
  throws nothing; it prints the buffered amount when the log level is exactly 1, and
  prints nothing at any other level.
\<close>

theorem drain_logs_at_level_1_only:
  "drain w buffered g =
     (g, if logLevel g = JNum 1 then [Console ''info'' [S ''ws backpressure'', N (int buffered)]] else [], None)"
  by (simp add: drain_def log1_def)

theorem drain_logs_at_level_1_only_witness:
  "fst (snd (drain 7 1024 (constructor example_tracker 0 (level_config 1))))
     = [Console ''info'' [S ''ws backpressure'', N 1024]]"
  using drain_logs_at_level_1_only [of 7 1024 "constructor example_tracker 0 (level_config 1)"]
  by (simp add: constructor_fields level_config_logLevel)

text \<open>
  C6 as stated fails at log level 2: a gateway configured with \<^verbatim>\<open>logLevel: 2\<close> prints
  nothing on drain.
\<close>

theorem drain_level_2_counterexample:
  "logLevel (constructor example_tracker 0 (level_config 2)) = JNum 2
   \<and> fst (snd (drain 7 1024 (constructor example_tracker 0 (level_config 2)))) = []"
  by (simp add: drain_def log1_def constructor_fields level_config_logLevel)

subsection \<open>The connection count\<close>

lemma transport_ok_take:
  "transport_ok live gone es \<Longrightarrow> transport_ok live gone (take n es)"
proof (induction es arbitrary: live gone n)
  case Nil
  then show ?case by simp
next
  case (Cons e es)
  show ?case
  proof (cases n)
    case 0
    then show ?thesis by simp
  next
    case (Suc m)
    with Cons show ?thesis by (cases e) simp_all
  qed
qed

lemma transport_ok_closes:
  "transport_ok live gone es \<Longrightarrow> finite live \<Longrightarrow> closes es \<le> opens es + card live"
proof (induction es arbitrary: live gone)
  case Nil
  then show ?case by simp
next
  case (Cons e es)
  show ?case
  proof (cases e)
    case (Open w url)
    with Cons.prems have "transport_ok (insert w live) gone es" "w \<notin> live" by simp_all
    with Cons.IH [of "insert w live" gone] Cons.prems(2) Open show ?thesis by simp
  next
    case (Message w payload)
    with Cons.prems Cons.IH [of live gone] show ?thesis by simp
  next
    case (Drain w buffered)
    with Cons.prems Cons.IH [of live gone] show ?thesis by simp
  next
    case (Close w code)
    with Cons.prems have ok: "transport_ok (live - {w}) (insert w gone) es" and w: "w \<in> live" by simp_all
    from Cons.prems(2) w have "card live = Suc (card (live - {w}))"
      by (rule card.remove)
    with Cons.IH [OF ok] Cons.prems(2) Close show ?thesis by simp
  qed
qed

text \<open>
  C3. From a new gateway, after any list of events the connection count is the number
  of opens minus the number of closes in the list; and when the events are such as the
  transport delivers (a close only for a socket that is open), the count is at least 0
  after every prefix of the list.
\<close>

theorem connection_count:
  "webSocketsCount (fst (deliver parse es (constructor tr t0 arg))) = int (opens es) - int (closes es)
   \<and> (transport_ok {} {} es \<longrightarrow>
        (\<forall>n \<le> length es. 0 \<le> webSocketsCount (fst (deliver parse (take n es) (constructor tr t0 arg)))))"
proof (intro conjI impI allI)
  show "webSocketsCount (fst (deliver parse es (constructor tr t0 arg))) = int (opens es) - int (closes es)"
    by (simp add: deliver_count constructor_fields)
next
  fix n
  assume ok: "transport_ok {} {} es" and "n \<le> length es"
  from ok have "transport_ok {} {} (take n es)"
    by (rule transport_ok_take)
  then have "closes (take n es) \<le> opens (take n es) + card ({} :: ws set)"
    by (rule transport_ok_closes) simp
  then show "0 \<le> webSocketsCount (fst (deliver parse (take n es) (constructor tr t0 arg)))"
    by (simp add: deliver_count constructor_fields)
qed

theorem connection_count_witness:
  "transport_ok {} {} [Open 1 ''/'', Open 2 ''/'', Close 1 1000]
   \<and> webSocketsCount (fst (deliver example_parse [Open 1 ''/'', Open 2 ''/'', Close 1 1000]
        (constructor example_tracker 0 None))) = 1
   \<and> 0 \<le> webSocketsCount (fst (deliver example_parse (take 2 [Open 1 ''/'', Open 2 ''/'', Close 1 1000])
        (constructor example_tracker 0 None)))"
proof -
  let ?es = "[Open 1 ''/'', Open 2 ''/'', Close 1 1000]"
  let ?g = "constructor example_tracker (0::nat) None"
  note c = connection_count [of example_parse ?es example_tracker 0 None]
  have ok: "transport_ok {} {} ?es"
    by simp
  have n: "(2::nat) \<le> length ?es"
    by simp
  from c have "webSocketsCount (fst (deliver example_parse ?es ?g)) = int (opens ?es) - int (closes ?es)"
    by (rule conjunct1)
  then have one: "webSocketsCount (fst (deliver example_parse ?es ?g)) = 1"
    by simp
  from c have "transport_ok {} {} ?es \<longrightarrow>
      (\<forall>n \<le> length ?es. 0 \<le> webSocketsCount (fst (deliver example_parse (take n ?es) ?g)))"
    by (rule conjunct2)
  with ok n have "0 \<le> webSocketsCount (fst (deliver example_parse (take 2 ?es) ?g))"
    by blast
  with ok one show ?thesis
    by (intro conjI)
qed

subsection \<open>Payloads that do not decode\<close>

text \<open>
  C5. When the payload does not decode, the message handler leaves the gateway as it
  was (no identity is created or bound), closes the socket, makes no call to
  \<^verbatim>\<open>processMessage\<close> and throws nothing; and after open, that message and close,
  the connection count is what it was before the open.
\<close>

theorem undecodable_payload:
  assumes "parse payload = Inl e"
    and "message parse w payload g = (g', fx, thrown)"
  shows "g' = g \<and> closed fx = [w] \<and> processed fx = [] \<and> created w' fx = [] \<and> thrown = None
    \<and> webSocketsCount (fst (deliver parse [Open w url, Message w payload, Close w code] g))
        = webSocketsCount g"
proof -
  from assms message_undecodable [of parse payload e w g]
  have "g' = g" and "thrown = None"
    and "fx = log1 g ''info'' [S ''ws message of size'', N (int (length payload))]
           @ log1 g ''warn'' [S ''failed to parse JSON message'', E e] @ [WsClose w]"
    by auto
  then show ?thesis
    by (simp add: deliver_count)
qed

theorem undecodable_payload_witness:
  "example_parse ''{not json'' = Inl (SyntaxError ''Unexpected token n'')
   \<and> closed (fst (snd (message example_parse 2 ''{not json'' (constructor example_tracker 0 None)))) = [2]
   \<and> processed (fst (snd (message example_parse 2 ''{not json'' (constructor example_tracker 0 None)))) = []
   \<and> snd (snd (message example_parse 2 ''{not json'' (constructor example_tracker 0 None))) = None
   \<and> webSocketsCount (fst (deliver example_parse [Open 2 ''/'', Message 2 ''{not json'', Close 2 1006]
        (constructor example_tracker 0 None))) = 0"
proof -
  let ?g = "constructor example_tracker (0::nat) None"
  let ?m = "message example_parse 2 ''{not json'' ?g"
  have p: "example_parse ''{not json'' = Inl (SyntaxError ''Unexpected token n'')"
    by (simp add: example_parse_def)
  have m: "?m = (fst ?m, fst (snd ?m), snd (snd ?m))"
    by simp
  from undecodable_payload [OF p m, of 2 "''/''" 1006] p show ?thesis
    by (simp add: constructor_fields)
qed

subsection \<open>Failures of the tracker\<close>

lemma callbacks_no_failure_log:
  "Console ''log'' [S ''failed to process message from the peer:'', E e] \<notin> set (snd (callbacks cs g))"
  by (induction cs g rule: callbacks.induct) (simp_all add: split_beta sendMessage_def split: option.splits)

text \<open>
  C4. When the payload decodes and \<^verbatim>\<open>processMessage\<close> throws \<open>e\<close>: if \<open>e\<close> is a
  \<^verbatim>\<open>TrackerError\<close>, the handler throws nothing, closes the socket, and logs the error
  exactly when the log level is 1; if \<open>e\<close> is anything else, the handler throws \<open>e\<close>
  and does not close the socket.
\<close>

theorem registry_failure:
  assumes "parse payload = Inr json"
    and "processMessage (tracker g) json (case ws_peer g w of Some p \<Rightarrow> p | None \<Rightarrow> next_peer g)
           (tracker_state g) = ((calls, Some e), t')"
    and "message parse w payload g = (g', fx, thrown)"
  shows "case e of
           TrackerError m \<Rightarrow>
             thrown = None \<and> closed fx = [w]
             \<and> (Console ''log'' [S ''failed to process message from the peer:'', E e] \<in> set fx
                  \<longleftrightarrow> logLevel g = JNum 1)
         | _ \<Rightarrow> thrown = Some e \<and> closed fx = []"
proof -
  let ?p = "case ws_peer g w of Some p \<Rightarrow> p | None \<Rightarrow> next_peer g"
  let ?g1 = "fst (snd (bind_peer w g))"
  have p: "fst (bind_peer w g) = ?p"
    by (simp add: bind_peer_result)
  have call: "processMessage (tracker ?g1) json ?p (tracker_state ?g1) = ((calls, Some e), t')"
    using assms(2) by simp
  have thrown: "thrown = snd (snd (dispatch w json ?p ?g1))"
    and fx: "fx = log1 g ''info'' [S ''ws message of size'', N (int (length payload))]
        @ log2 g ''log'' [S ''in'', peer_label g (ws_peer g w), J json]
        @ snd (snd (bind_peer w g))
        @ fst (snd (dispatch w json ?p ?g1))"
    using assms(1) assms(3) message_decoded [of parse payload json w g] p by simp_all
  have d: "dispatch w json ?p ?g1 =
      (case e of
         TrackerError m \<Rightarrow>
           ((fst (callbacks calls ?g1))\<lparr>tracker_state := t'\<rparr>,
            ProcessMessage json ?p # snd (callbacks calls ?g1)
              @ log1 g ''log'' [S ''failed to process message from the peer:'', E e] @ [WsClose w],
            None)
       | _ \<Rightarrow>
           ((fst (callbacks calls ?g1))\<lparr>tracker_state := t'\<rparr>,
            ProcessMessage json ?p # snd (callbacks calls ?g1), Some e))"
    using call by (simp add: dispatch_def split_beta log1_def split: error.splits)
  show ?thesis
  proof (cases e)
    case (TrackerError m)
    with d thrown fx show ?thesis
      using callbacks_no_failure_log [of e calls ?g1]
      by (auto simp add: log1_def log2_def bind_peer_result split: option.splits)
  next
    case (SyntaxError m)
    with d thrown fx show ?thesis
      by (simp add: bind_peer_result split: option.splits)
  next
    case (OtherError m)
    with d thrown fx show ?thesis
      by (simp add: bind_peer_result split: option.splits)
  qed
qed

theorem registry_failure_witness:
  "example_parse ''reject'' = Inr ''reject''
   \<and> snd (snd (message example_parse 3 ''reject'' (constructor example_tracker 0 (level_config 1)))) = None
   \<and> closed (fst (snd (message example_parse 3 ''reject'' (constructor example_tracker 0 (level_config 1))))) = [3]
   \<and> example_parse ''crash'' = Inr ''crash''
   \<and> snd (snd (message example_parse 3 ''crash'' (constructor example_tracker 0 (level_config 1))))
        = Some (OtherError ''crash'')
   \<and> closed (fst (snd (message example_parse 3 ''crash'' (constructor example_tracker 0 (level_config 1))))) = []"
proof -
  let ?g = "constructor example_tracker (0::nat) (level_config 1)"
  let ?r = "message example_parse 3 ''reject'' ?g"
  let ?c = "message example_parse 3 ''crash'' ?g"
  have p1: "example_parse ''reject'' = Inr ''reject''" and p2: "example_parse ''crash'' = Inr ''crash''"
    by (simp_all add: example_parse_def)
  have t1: "processMessage (tracker ?g) ''reject'' (case ws_peer ?g 3 of Some p \<Rightarrow> p | None \<Rightarrow> next_peer ?g)
      (tracker_state ?g) = (([], Some (TrackerError ''rejected'')), 0)"
    and t2: "processMessage (tracker ?g) ''crash'' (case ws_peer ?g 3 of Some p \<Rightarrow> p | None \<Rightarrow> next_peer ?g)
      (tracker_state ?g) = (([], Some (OtherError ''crash'')), 0)"
    by (simp_all add: constructor_fields example_eval)
  have r: "?r = (fst ?r, fst (snd ?r), snd (snd ?r))" and c: "?c = (fst ?c, fst (snd ?c), snd (snd ?c))"
    by simp_all
  from registry_failure [OF p1 t1 r] have "snd (snd ?r) = None \<and> closed (fst (snd ?r)) = [3]"
    by simp
  moreover from registry_failure [OF p2 t2 c]
  have "snd (snd ?c) = Some (OtherError ''crash'') \<and> closed (fst (snd ?c)) = []"
    by simp
  ultimately show ?thesis
    using p1 p2 by blast
qed

subsection \<open>One identity per connection\<close>

lemma effects_of_Cons [simp]: "effects_of (x # lg) = fst (snd x) @ effects_of lg"
  by (cases x) auto

lemma effects_on_Cons [simp]:
  "effects_on w (x # lg) = (if event_ws (fst x) = w then fst (snd x) @ effects_on w lg else effects_on w lg)"
  by (cases x) auto

lemma handle_ws_peer:
  "ws_peer (fst (handle parse e g)) w =
     (case e of
        Message w' payload \<Rightarrow>
          (if w' = w \<and> \<not> isl (parse payload) \<and> ws_peer g w = None then Some (next_peer g)
           else ws_peer g w)
      | Close w' code \<Rightarrow> (if w' = w then None else ws_peer g w)
      | _ \<Rightarrow> ws_peer g w)"
  by (cases e) (auto simp add: message_ws_peer split: sum.splits option.splits)

lemma handle_created:
  "created w (fst (snd (handle parse e g))) =
     (case e of
        Message w' payload \<Rightarrow>
          (if w' = w \<and> \<not> isl (parse payload) \<and> ws_peer g w = None then [next_peer g] else [])
      | _ \<Rightarrow> [])"
  by (cases e) (auto simp add: message_created split: sum.splits option.splits)

lemma handle_processed:
  "processed (fst (snd (handle parse e g))) =
     (case e of
        Message w' payload \<Rightarrow>
          (if isl (parse payload) then []
           else [case ws_peer g w' of Some p \<Rightarrow> p | None \<Rightarrow> next_peer g])
      | _ \<Rightarrow> [])"
  by (cases e) (auto simp add: message_processed split: sum.splits option.splits)

lemma handle_disconnected:
  "disconnected (fst (snd (handle parse e g))) =
     (case e of
        Close w' code \<Rightarrow> (case ws_peer g w' of None \<Rightarrow> [] | Some p \<Rightarrow> [p])
      | _ \<Rightarrow> [])"
  by (cases e) auto

lemma gone_no_events:
  "transport_ok live gone es \<Longrightarrow> w \<in> gone \<Longrightarrow> w \<notin> live \<Longrightarrow> \<forall>e \<in> set es. event_ws e \<noteq> w"
proof (induction es arbitrary: live gone)
  case Nil
  then show ?case by simp
next
  case (Cons e es)
  show ?case
  proof (cases e)
    case (Open w' url)
    with Cons.prems have "transport_ok (insert w' live) gone es" "w' \<noteq> w" by auto
    with Cons.IH [of "insert w' live" gone] Cons.prems Open show ?thesis by auto
  next
    case (Message w' payload)
    with Cons.prems Cons.IH [of live gone] show ?thesis by auto
  next
    case (Drain w' buffered)
    with Cons.prems Cons.IH [of live gone] show ?thesis by auto
  next
    case (Close w' code)
    with Cons.prems have "transport_ok (live - {w'}) (insert w' gone) es" "w' \<noteq> w" by auto
    with Cons.IH [of "live - {w'}" "insert w' gone"] Cons.prems Close show ?thesis by auto
  qed
qed

lemma no_events_no_effects:
  "\<forall>e \<in> set es. event_ws e \<noteq> w \<Longrightarrow>
   created w (effects_of (snd (deliver parse es g))) = []
   \<and> effects_on w (snd (deliver parse es g)) = []"
proof (induction es arbitrary: g)
  case Nil
  then show ?case by simp
next
  case (Cons e es)
  then have "event_ws e \<noteq> w" and rest: "\<forall>e \<in> set es. event_ws e \<noteq> w"
    by simp_all
  then have "created w (fst (snd (handle parse e g))) = []"
    by (auto simp add: handle_created split: event.splits)
  with Cons.IH [OF rest] \<open>event_ws e \<noteq> w\<close> show ?case
    by (simp add: deliver_Cons)
qed

lemma after_close:
  assumes "transport_ok live gone (Close w code # es)"
  shows "created w (effects_of (snd (deliver parse es g))) = []"
    and "effects_on w (snd (deliver parse es g)) = []"
    and "\<forall>e \<in> set es. event_ws e \<noteq> w"
proof -
  from assms have "transport_ok (live - {w}) (insert w gone) es"
    by simp
  then show quiet: "\<forall>e \<in> set es. event_ws e \<noteq> w"
    by (rule gone_no_events) simp_all
  from no_events_no_effects [OF quiet]
  show "created w (effects_of (snd (deliver parse es g))) = []"
    and "effects_on w (snd (deliver parse es g)) = []"
    by blast+
qed

lemma transport_ok_tail:
  "transport_ok live gone (e # es) \<Longrightarrow> \<exists>live' gone'. transport_ok live' gone' es"
  by (cases e) auto

lemma bound_lifecycle:
  "transport_ok live gone es \<Longrightarrow> ws_peer g w = Some q \<Longrightarrow>
   created w (effects_of (snd (deliver parse es g))) = []
   \<and> set (processed (effects_on w (snd (deliver parse es g)))) \<subseteq> {q}
   \<and> disconnected (effects_on w (snd (deliver parse es g))) =
       (if \<exists>code. Close w code \<in> set es then [q] else [])"
proof (induction es arbitrary: g live gone)
  case Nil
  then show ?case by simp
next
  case (Cons e es)
  from Cons.prems(1) obtain live' gone' where ok: "transport_ok live' gone' es"
    using transport_ok_tail by blast
  let ?g = "fst (handle parse e g)"
  show ?case
  proof (cases "\<exists>code. e = Close w code")
    case True
    then obtain code where e: "e = Close w code" by blast
    with Cons.prems(1) have "created w (effects_of (snd (deliver parse es ?g))) = []"
      and "effects_on w (snd (deliver parse es ?g)) = []"
      using after_close by blast+
    with e Cons.prems(2) show ?thesis
      by (auto simp add: deliver_Cons)
  next
    case False
    then have "ws_peer ?g w = Some q"
      using Cons.prems(2) by (auto simp add: handle_ws_peer split: event.splits)
    from Cons.IH [OF ok this] False Cons.prems(2) show ?thesis
      by (cases e)
         (auto simp add: deliver_Cons handle_created handle_processed handle_disconnected
            message_created message_processed split: if_splits sum.splits option.splits)
  qed
qed

lemma unbound_lifecycle:
  "transport_ok live gone es \<Longrightarrow> ws_peer g w = None \<Longrightarrow>
   length (created w (effects_of (snd (deliver parse es g)))) \<le> 1
   \<and> set (processed (effects_on w (snd (deliver parse es g))))
        \<subseteq> set (created w (effects_of (snd (deliver parse es g))))
   \<and> disconnected (effects_on w (snd (deliver parse es g))) =
       (if \<exists>code. Close w code \<in> set es then created w (effects_of (snd (deliver parse es g))) else [])
   \<and> (created w (effects_of (snd (deliver parse es g))) \<noteq> []
        \<longleftrightarrow> (\<exists>payload. Message w payload \<in> set es \<and> \<not> isl (parse payload)))"
proof (induction es arbitrary: g live gone)
  case Nil
  then show ?case by simp
next
  case (Cons e es)
  from Cons.prems(1) obtain live' gone' where ok: "transport_ok live' gone' es"
    using transport_ok_tail by blast
  let ?g = "fst (handle parse e g)"
  consider
    (close) code where "e = Close w code"
  | (decoded) payload where "e = Message w payload" "\<not> isl (parse payload)"
  | (other) "\<forall>code. e \<noteq> Close w code" "\<forall>payload. e = Message w payload \<longrightarrow> isl (parse payload)"
    by blast
  then show ?case
  proof cases
    case close
    with Cons.prems(1) have "created w (effects_of (snd (deliver parse es ?g))) = []"
      and "effects_on w (snd (deliver parse es ?g)) = []"
      and "\<forall>e \<in> set es. event_ws e \<noteq> w"
      using after_close by blast+
    with close Cons.prems(2) show ?thesis
      by (auto simp add: deliver_Cons)
  next
    case decoded
    then have "ws_peer ?g w = Some (next_peer g)"
      using Cons.prems(2) by (auto simp add: message_ws_peer split: sum.splits)
    from bound_lifecycle [OF ok this] decoded Cons.prems(2) show ?thesis
      by (auto simp add: deliver_Cons message_created message_processed split: sum.splits)
  next
    case other
    then have "ws_peer ?g w = None"
      using Cons.prems(2) by (auto simp add: handle_ws_peer split: event.splits)
    from Cons.IH [OF ok this] other Cons.prems(2) show ?thesis
      by (cases e)
         (auto simp add: deliver_Cons message_created message_processed
            split: if_splits sum.splits option.splits)
  qed
qed

text \<open>
  C1. Over any list of events such as the transport delivers, at most one identity is
  created for a socket, and none when the socket already has one; every call of
  \<^verbatim>\<open>processMessage\<close> made for a message of the socket passes the one identity of the
  socket (the one bound at the start, or else the one created). The message handler
  creates an identity exactly when the payload decodes and the socket has none, and
  with an identity bound it passes that identity and leaves the binding.
\<close>

theorem one_identity_per_connection:
  "transport_ok live gone es \<Longrightarrow>
   length (created w (effects_of (snd (deliver parse es g)))) \<le> 1
   \<and> (ws_peer g w \<noteq> None \<longrightarrow> created w (effects_of (snd (deliver parse es g))) = [])
   \<and> (\<forall>p \<in> set (processed (effects_on w (snd (deliver parse es g)))).
         ws_peer g w = Some p \<or> created w (effects_of (snd (deliver parse es g))) = [p])
   \<and> created w (fst (snd (message parse w payload g))) =
         (if \<not> isl (parse payload) \<and> ws_peer g w = None then [next_peer g] else [])
   \<and> (ws_peer g w = Some q \<and> \<not> isl (parse payload) \<longrightarrow>
         processed (fst (snd (message parse w payload g))) = [q]
         \<and> ws_peer (fst (message parse w payload g)) w = Some q)"
proof -
  assume ok: "transport_ok live gone es"
  let ?cr = "created w (effects_of (snd (deliver parse es g)))"
  let ?pr = "processed (effects_on w (snd (deliver parse es g)))"
  have seq: "length ?cr \<le> 1 \<and> (ws_peer g w \<noteq> None \<longrightarrow> ?cr = [])
      \<and> (\<forall>p \<in> set ?pr. ws_peer g w = Some p \<or> ?cr = [p])"
  proof (cases "ws_peer g w")
    case None
    from unbound_lifecycle [OF ok None, of parse]
    have len: "length ?cr \<le> 1" and sub: "set ?pr \<subseteq> set ?cr"
      by simp_all
    have "?cr = [p]" if "p \<in> set ?pr" for p
    proof -
      from that sub have "p \<in> set ?cr" by blast
      with len show ?thesis by (cases ?cr) auto
    qed
    with len None show ?thesis by simp
  next
    case (Some q)
    from bound_lifecycle [OF ok Some, of parse] Some show ?thesis
      by auto
  qed
  have one: "created w (fst (snd (message parse w payload g))) =
         (if \<not> isl (parse payload) \<and> ws_peer g w = None then [next_peer g] else [])"
    by (auto simp add: message_created split: sum.splits option.splits)
  have reuse: "ws_peer g w = Some q \<and> \<not> isl (parse payload) \<longrightarrow>
         processed (fst (snd (message parse w payload g))) = [q]
         \<and> ws_peer (fst (message parse w payload g)) w = Some q"
    by (auto simp add: message_processed message_ws_peer split: sum.splits option.splits)
  from seq one reuse show ?thesis
    by blast
qed

theorem one_identity_per_connection_witness:
  "transport_ok {} {} [Open 1 ''/'', Message 1 ''hello'', Message 1 ''again'', Close 1 1000]
   \<and> length (created 1 (effects_of (snd (deliver example_parse
        [Open 1 ''/'', Message 1 ''hello'', Message 1 ''again'', Close 1 1000]
        (constructor example_tracker 0 None))))) \<le> 1
   \<and> created 1 (effects_of (snd (deliver example_parse
        [Open 1 ''/'', Message 1 ''hello'', Message 1 ''again'', Close 1 1000]
        (constructor example_tracker 0 None)))) = [0]
   \<and> processed (effects_on 1 (snd (deliver example_parse
        [Open 1 ''/'', Message 1 ''hello'', Message 1 ''again'', Close 1 1000]
        (constructor example_tracker 0 None)))) = [0, 0]
   \<and> ws_peer (fst (deliver example_parse [Open 1 ''/'', Message 1 ''hello'']
        (constructor example_tracker 0 None))) 1 = Some 0
   \<and> processed (fst (snd (message example_parse 1 ''again''
        (fst (deliver example_parse [Open 1 ''/'', Message 1 ''hello'']
           (constructor example_tracker 0 None)))))) = [0]
   \<and> created 1 (fst (snd (message example_parse 1 ''again''
        (fst (deliver example_parse [Open 1 ''/'', Message 1 ''hello'']
           (constructor example_tracker 0 None)))))) = []"
proof -
  let ?es = "[Open 1 ''/'', Message 1 ''hello'', Message 1 ''again'', Close 1 1000]"
  let ?g = "constructor example_tracker (0::nat) None"
  have ok: "transport_ok {} {} ?es"
    by simp
  from one_identity_per_connection [OF ok, of 1 example_parse ?g "''hello''" 0]
  have le: "length (created 1 (effects_of (snd (deliver example_parse ?es ?g)))) \<le> 1"
    by (rule conjunct1)
  have cr: "created 1 (effects_of (snd (deliver example_parse ?es ?g))) = [0]"
    by (simp add: eval_defs)
  have pr: "processed (effects_on 1 (snd (deliver example_parse ?es ?g))) = [0, 0]"
    by (simp add: eval_defs)
  let ?g1 = "fst (deliver example_parse [Open 1 ''/'', Message 1 ''hello''] ?g)"
  have bound: "ws_peer ?g1 1 = Some 0"
    by (simp add: eval_defs)
  have dec: "\<not> isl (example_parse ''again'')"
    by (simp add: example_parse_def)
  have nil: "transport_ok {} {} []"
    by simp
  note again = one_identity_per_connection [OF nil, of 1 example_parse ?g1 "''again''" 0]
  from again bound dec
  have reuse: "processed (fst (snd (message example_parse 1 ''again'' ?g1))) = [0]"
    by blast
  from again bound
  have none: "created 1 (fst (snd (message example_parse 1 ''again'' ?g1))) = []"
    by simp
  from ok le cr pr bound reuse none show ?thesis
    by (intro conjI)
qed



subsection \<open>The log level does not change what the gateway does\<close>

lemma quiet_sendMessage:
  "peers a = peers b \<Longrightarrow> quiet (sendMessage a p json) = quiet (sendMessage b p json)"
  by (simp add: sendMessage_def split: option.splits)

lemma callbacks_same:
  "same_but_logging a b \<Longrightarrow>
   same_but_logging (fst (callbacks cs a)) (fst (callbacks cs b))
   \<and> quiet (snd (callbacks cs a)) = quiet (snd (callbacks cs b))"
proof (induction cs arbitrary: a b)
  case Nil
  then show ?case by simp
next
  case (Cons c cs)
  show ?case
  proof (cases c)
    case (SetId p i)
    let ?upd = "\<lambda>g. g\<lparr>peers := (case peers g p of
                      None \<Rightarrow> peers g
                    | Some c \<Rightarrow> (peers g)(p \<mapsto> c\<lparr>peer_id := Some i\<rparr>))\<rparr>"
    from Cons.prems have "same_but_logging (?upd a) (?upd b)"
      by (auto simp add: same_but_logging_def split: option.splits)
    from Cons.IH [OF this] SetId show ?thesis by simp
  next
    case (SendMessage p json)
    from Cons.prems have "peers a = peers b"
      by (simp add: same_but_logging_def)
    with Cons.IH [OF Cons.prems] SendMessage show ?thesis
      by (simp add: split_beta quiet_sendMessage [of a b])
  qed
qed

lemma same_tracker_state:
  "same_but_logging a b \<Longrightarrow> same_but_logging (a\<lparr>tracker_state := t\<rparr>) (b\<lparr>tracker_state := t\<rparr>)"
  by (simp add: same_but_logging_def)

lemma bind_peer_same:
  assumes "same_but_logging a b"
  shows "fst (bind_peer w a) = fst (bind_peer w b)"
    and "same_but_logging (fst (snd (bind_peer w a))) (fst (snd (bind_peer w b)))"
    and "snd (snd (bind_peer w a)) = snd (snd (bind_peer w b))"
  using assms by (simp_all add: bind_peer_def same_but_logging_def Let_def split: option.splits)

lemma dispatch_same:
  assumes "same_but_logging a b"
  shows "same_but_logging (fst (dispatch w json p a)) (fst (dispatch w json p b))"
    and "quiet (fst (snd (dispatch w json p a))) = quiet (fst (snd (dispatch w json p b)))"
    and "snd (snd (dispatch w json p a)) = snd (snd (dispatch w json p b))"
proof -
  from assms have eq: "tracker a = tracker b" "tracker_state a = tracker_state b"
    by (simp_all add: same_but_logging_def)
  let ?cs = "fst (fst (processMessage (tracker b) json p (tracker_state b)))"
  from callbacks_same [OF assms, of ?cs]
  have c: "same_but_logging (fst (callbacks ?cs a)) (fst (callbacks ?cs b))"
    and q: "quiet (snd (callbacks ?cs a)) = quiet (snd (callbacks ?cs b))"
    by simp_all
  from c have c': "same_but_logging ((fst (callbacks ?cs a))\<lparr>tracker_state := t\<rparr>)
      ((fst (callbacks ?cs b))\<lparr>tracker_state := t\<rparr>)" for t
    by (rule same_tracker_state)
  show "same_but_logging (fst (dispatch w json p a)) (fst (dispatch w json p b))"
    using eq c' by (simp add: dispatch_def Let_def split_beta split: option.splits error.splits)
  show "quiet (fst (snd (dispatch w json p a))) = quiet (fst (snd (dispatch w json p b)))"
    using eq q by (simp add: dispatch_def Let_def split_beta split: option.splits error.splits)
  show "snd (snd (dispatch w json p a)) = snd (snd (dispatch w json p b))"
    using eq by (simp add: dispatch_def Let_def split_beta split: option.splits error.splits)
qed

lemma message_same:
  assumes "same_but_logging a b"
  shows "same_but_logging (fst (message parse w payload a)) (fst (message parse w payload b))"
    and "quiet (fst (snd (message parse w payload a))) = quiet (fst (snd (message parse w payload b)))"
    and "snd (snd (message parse w payload a)) = snd (snd (message parse w payload b))"
proof -
  note b = bind_peer_same [OF assms, of w]
  show "same_but_logging (fst (message parse w payload a)) (fst (message parse w payload b))"
    using assms b dispatch_same(1) [OF b(2)]
    by (cases "parse payload") (simp_all add: message_undecodable message_decoded)
  show "quiet (fst (snd (message parse w payload a))) = quiet (fst (snd (message parse w payload b)))"
    using assms b dispatch_same(2) [OF b(2)]
    by (cases "parse payload") (simp_all add: message_undecodable message_decoded)
  show "snd (snd (message parse w payload a)) = snd (snd (message parse w payload b))"
    using assms b dispatch_same(3) [OF b(2)]
    by (cases "parse payload") (simp_all add: message_undecodable message_decoded)
qed

lemma close_same:
  assumes "same_but_logging a b"
  shows "same_but_logging (fst (close w code a)) (fst (close w code b))"
    and "quiet (fst (snd (close w code a))) = quiet (fst (snd (close w code b)))"
    and "snd (snd (close w code a)) = snd (snd (close w code b))"
proof -
  from assms have eq: "tracker a = tracker b" "tracker_state a = tracker_state b" "ws_peer a = ws_peer b"
    by (simp_all add: same_but_logging_def)
  let ?upd = "\<lambda>g. g\<lparr>webSocketsCount := webSocketsCount g - 1, ws_peer := (ws_peer g)(w := None)\<rparr>"
  from assms have s2: "same_but_logging (?upd a) (?upd b)"
    by (simp add: same_but_logging_def)
  have c: "same_but_logging (fst (callbacks cs (?upd a))) (fst (callbacks cs (?upd b)))"
    and q: "quiet (snd (callbacks cs (?upd a))) = quiet (snd (callbacks cs (?upd b)))" for cs
    using callbacks_same [OF s2, of cs] by simp_all
  have c': "same_but_logging ((fst (callbacks cs (?upd a)))\<lparr>tracker_state := t\<rparr>)
      ((fst (callbacks cs (?upd b)))\<lparr>tracker_state := t\<rparr>)" for t cs
    using c [of cs] by (rule same_tracker_state)
  have n: "same_but_logging (a\<lparr>webSocketsCount := webSocketsCount a - 1\<rparr>)
      (b\<lparr>webSocketsCount := webSocketsCount b - 1\<rparr>)"
    using assms by (simp add: same_but_logging_def)
  show "same_but_logging (fst (close w code a)) (fst (close w code b))"
    using eq c' n by (simp add: close_def Let_def split_beta split: option.splits)
  show "quiet (fst (snd (close w code a))) = quiet (fst (snd (close w code b)))"
    using eq q by (simp add: close_def Let_def split_beta split: option.splits)
  show "snd (snd (close w code a)) = snd (snd (close w code b))"
    using eq by (simp add: close_def Let_def split_beta split: option.splits)
qed

lemma handle_same:
  assumes "same_but_logging a b"
  shows "same_but_logging (fst (handle parse e a)) (fst (handle parse e b))"
    and "quiet (fst (snd (handle parse e a))) = quiet (fst (snd (handle parse e b)))"
    and "snd (snd (handle parse e a)) = snd (snd (handle parse e b))"
proof -
  have o: "same_but_logging (fst (open_ws w url a)) (fst (open_ws w url b))" for w url
    using assms by (simp add: open_ws_def same_but_logging_def)
  show "same_but_logging (fst (handle parse e a)) (fst (handle parse e b))"
    using assms o message_same(1) [OF assms] close_same(1) [OF assms] by (cases e) simp_all
  show "quiet (fst (snd (handle parse e a))) = quiet (fst (snd (handle parse e b)))"
    using message_same(2) [OF assms] close_same(2) [OF assms]
    by (cases e) (simp_all add: open_ws_def drain_def)
  show "snd (snd (handle parse e a)) = snd (snd (handle parse e b))"
    using message_same(3) [OF assms] close_same(3) [OF assms]
    by (cases e) (simp_all add: open_ws_def drain_def)
qed

lemma quiet_log_Cons [simp]:
  "quiet_log (x # lg) = (fst x, quiet (fst (snd x)), snd (snd x)) # quiet_log lg"
  by (simp add: quiet_log_def split_beta)

lemma quiet_log_Nil [simp]: "quiet_log [] = []"
  by (simp add: quiet_log_def)

lemma deliver_same:
  "same_but_logging a b \<Longrightarrow>
   same_but_logging (fst (deliver parse es a)) (fst (deliver parse es b))
   \<and> quiet_log (snd (deliver parse es a)) = quiet_log (snd (deliver parse es b))"
proof (induction es arbitrary: a b)
  case Nil
  then show ?case by simp
next
  case (Cons e es)
  note h = handle_same [OF Cons.prems, of parse e]
  from Cons.IH [OF h(1)] h(2) h(3) show ?case
    by (simp add: deliver_Cons)
qed

lemma constructor_same:
  "section_of arg1 cfg_server = section_of arg2 cfg_server \<Longrightarrow>
   same_but_logging (constructor tr t0 arg1) (constructor tr t0 arg2)"
  by (simp add: same_but_logging_def constructor_def make_settings_def Let_def)

text \<open>
  C10. Two gateways that are the same but for logging (they agree on every field but
  the log level and the settings), given the same events, end the same but for logging
  (same connection count, same identities and bindings, same tracker state), and
  their logs agree once the console calls are removed: event by event the same
  identities created, sockets closed, messages sent, calls of \<^verbatim>\<open>processMessage\<close> and
  \<^verbatim>\<open>disconnectPeer\<close> with the same arguments, and the same exception leaving the
  handler. As this holds for every list of events, it holds after every prefix. Two
  gateways constructed with the same tracker and the same server section, whatever
  their log levels, are the same but for logging.
\<close>

theorem verbosity_noninterference:
  "(same_but_logging a b \<longrightarrow>
      same_but_logging (fst (deliver parse es a)) (fst (deliver parse es b))
      \<and> quiet_log (snd (deliver parse es a)) = quiet_log (snd (deliver parse es b)))
   \<and> (section_of arg1 cfg_server = section_of arg2 cfg_server \<longrightarrow>
      same_but_logging (constructor tr t0 arg1) (constructor tr t0 arg2))"
  using deliver_same [of a b parse es] constructor_same [of arg1 arg2 tr t0]
  by blast

theorem verbosity_noninterference_witness:
  "same_but_logging (constructor example_tracker 0 (level_config 0)) (constructor example_tracker 0 (level_config 2))
   \<and> quiet_log (snd (deliver example_parse
        [Open 1 ''/'', Message 1 ''hello'', Drain 1 10, Message 1 ''reject'', Close 1 1000]
        (constructor example_tracker 0 (level_config 0))))
     = quiet_log (snd (deliver example_parse
        [Open 1 ''/'', Message 1 ''hello'', Drain 1 10, Message 1 ''reject'', Close 1 1000]
        (constructor example_tracker 0 (level_config 2))))
   \<and> webSocketsCount (fst (deliver example_parse
        [Open 1 ''/'', Message 1 ''hello'', Drain 1 10, Message 1 ''reject'', Close 1 1000]
        (constructor example_tracker 0 (level_config 0))))
     = webSocketsCount (fst (deliver example_parse
        [Open 1 ''/'', Message 1 ''hello'', Drain 1 10, Message 1 ''reject'', Close 1 1000]
        (constructor example_tracker 0 (level_config 2))))
   \<and> snd (deliver example_parse [Message 1 ''hello''] (constructor example_tracker 0 (level_config 2)))
     = [(Message 1 ''hello'',
         [Console ''log'' [S ''in'', S ''unknown peer'', J ''hello''], NewPeer 1 0,
          ProcessMessage ''hello'' 0, WsSend 1 ''ack'', Console ''log'' [S ''out'', Hex ''ab'', J ''ack'']],
         None)]
   \<and> snd (deliver example_parse [Message 1 ''hello''] (constructor example_tracker 0 (level_config 0)))
     = [(Message 1 ''hello'', [NewPeer 1 0, ProcessMessage ''hello'' 0, WsSend 1 ''ack''], None)]"
proof -
  let ?es = "[Open 1 ''/'', Message 1 ''hello'', Drain 1 10, Message 1 ''reject'', Close 1 1000]"
  let ?a = "constructor example_tracker (0::nat) (level_config 0)"
  let ?b = "constructor example_tracker (0::nat) (level_config 2)"
  note t = verbosity_noninterference [of ?a ?b example_parse ?es "level_config 0" "level_config 2"
      example_tracker 0]
  have srv: "section_of (level_config 0) cfg_server = section_of (level_config 2) cfg_server"
    by (simp add: section_of_def level_config_def)
  from t srv have same: "same_but_logging ?a ?b"
    by blast
  with t have after: "same_but_logging (fst (deliver example_parse ?es ?a)) (fst (deliver example_parse ?es ?b))"
    and logs: "quiet_log (snd (deliver example_parse ?es ?a)) = quiet_log (snd (deliver example_parse ?es ?b))"
    by blast+
  from after have count: "webSocketsCount (fst (deliver example_parse ?es ?a))
      = webSocketsCount (fst (deliver example_parse ?es ?b))"
    by (simp add: same_but_logging_def)
  have loud: "snd (deliver example_parse [Message 1 ''hello''] ?b)
     = [(Message 1 ''hello'',
         [Console ''log'' [S ''in'', S ''unknown peer'', J ''hello''], NewPeer 1 0,
          ProcessMessage ''hello'' 0, WsSend 1 ''ack'', Console ''log'' [S ''out'', Hex ''ab'', J ''ack'']],
         None)]"
    by (simp add: eval_defs)
  have silent: "snd (deliver example_parse [Message 1 ''hello''] ?a)
     = [(Message 1 ''hello'', [NewPeer 1 0, ProcessMessage ''hello'' 0, WsSend 1 ''ack''], None)]"
    by (simp add: eval_defs)
  from same logs count loud silent show ?thesis
    by (intro conjI)
qed

subsection \<open>The round trip of the codec\<close>










lemma prepend_Parsed [simp]: "prepend c (Parsed (t, rest)) = Parsed (c # t, rest)"
  by (simp add: prepend_def)










lemma skip_ws_punct [simp]:
  "skip_ws (CHR '','' # r) = CHR '','' # r"
  "skip_ws (CHR '']'' # r) = CHR '']'' # r"
  "skip_ws (CHR ''}'' # r) = CHR ''}'' # r"
  "skip_ws (CHR '':'' # r) = CHR '':'' # r"
  "skip_ws (CHR ''['' # r) = CHR ''['' # r"
  "skip_ws (CHR ''{'' # r) = CHR ''{'' # r"
  "skip_ws (CHR 0x22 # r) = CHR 0x22 # r"
  "skip_ws [] = []"
  by (simp_all add: skip_ws_def is_ws_def)

lemma stringify_representable: "representable v \<Longrightarrow> \<exists>t. stringify v = Some t"
  by (induction v rule: representable.induct) auto


lemma elements_representable:
  "representable v \<Longrightarrow> elements (v # vs) = the (stringify v) # elements vs"
  using stringify_representable [of v] by auto

lemma members_representable:
  "representable v \<Longrightarrow>
   members ((k, v) # ms) = (quote k @ '':'' @ the (stringify v)) # members ms"
  using stringify_representable [of v] by auto















end
